theory Spec2Isabelle
  imports Main
begin

section \<open>Values, parameters and errors\<close>

text \<open>
  A shallow embedding of \<^verbatim>\<open>bin/parsers.py\<close>: the class
  \<^verbatim>\<open>DynamicArgumentParser\<close>, which turns the signature of a callable into
  command-line arguments and turns the parsed command line back into the pair
  \<^verbatim>\<open>(args, kwargs)\<close> of an invocation.

  The values that occur in a parsed namespace: \<^verbatim>\<open>None\<close>, a boolean, a raw
  string token, a value produced by a type cast (of an arbitrary type \<open>'v\<close>), and the
  list object stored under the key \<^verbatim>\<open>_positional_or_kw\<close>. That list is the only
  object the program mutates in place (\<^verbatim>\<open>pop(0)\<close>), so it is kept as a reference
  \<open>PPool\<close> to one cell whose contents travel with the state.
\<close>

datatype 'v pyval = PNone | PBool bool | PStr string | PObj 'v | PPool

text \<open>
  The ways the program stops: a missing dictionary key, a method missing on a value, the
  exit through \<^verbatim>\<open>self.error(message)\<close>, and the exit the library's own parse takes on
  a command line it rejects (its message is not modelled).
\<close>

datatype error = KeyError string | AttributeError | ParserError string | ArgparseExit

text \<open>The five parameter kinds of \<^verbatim>\<open>inspect.Parameter\<close>.\<close>

datatype kind =
  POSITIONAL_ONLY | POSITIONAL_OR_KEYWORD | VAR_POSITIONAL | KEYWORD_ONLY | VAR_KEYWORD

datatype annotation = AnnEmpty | AnnBool | AnnOther string

text \<open>
  An \<^verbatim>\<open>inspect.Parameter\<close>. The default \<^verbatim>\<open>inspect._empty\<close> is \<open>None\<close>.
\<close>

record 'v param =
  name :: string
  kind :: kind
  annotation :: annotation
  default_value :: "'v pyval option"

section \<open>Classification: \<^verbatim>\<open>__init__\<close>\<close>

text \<open>
  \<^verbatim>\<open>params_meta\<close> is a \<^verbatim>\<open>defaultdict(list)\<close> whose keys are the kinds and the
  string \<^verbatim>\<open>'REQUIRED'\<close>: a total function into lists, empty where nothing was
  appended.
\<close>

datatype meta_key = Kind kind | REQUIRED

type_synonym 'v params_meta = "meta_key \<Rightarrow> 'v param list"

definition append_meta :: "meta_key \<Rightarrow> 'v param \<Rightarrow> 'v params_meta \<Rightarrow> 'v params_meta" where
  "append_meta k p m = m(k := m k @ [p])"

text \<open>The body of the loop over the signature's parameters.\<close>

definition init_step :: "'v param \<Rightarrow> 'v params_meta \<Rightarrow> 'v params_meta" where
  "init_step p m =
     (let m' = append_meta (Kind (kind p)) p m
      in if default_value p = None then append_meta REQUIRED p m' else m')"

definition init_params_meta :: "'v param list \<Rightarrow> 'v params_meta" where
  "init_params_meta ps = fold init_step ps (\<lambda>_. [])"

section \<open>Argument declarations: \<^verbatim>\<open>generate_arg_options\<close> and \<^verbatim>\<open>generate_args\<close>\<close>

datatype action = StoreTrue | BooleanOptionalAction

datatype argdefault = SUPPRESS

text \<open>
  The options dictionary, key by key: a key that is not set is \<open>None\<close>. The keys
  \<^verbatim>\<open>help\<close> and \<^verbatim>\<open>metavar\<close> only feed the usage text and are left out.
\<close>

record 'v options =
  opt_action :: "action option"
  opt_type :: "(string \<Rightarrow> 'v option) option"
  opt_default :: "argdefault option"

text \<open>
  \<^verbatim>\<open>param.annotation == bool or isinstance(param.default, bool)\<close>
\<close>

definition boolean_like :: "'v param \<Rightarrow> bool" where
  "boolean_like p =
     (annotation p = AnnBool \<or>
      (case default_value p of Some (PBool b) \<Rightarrow> True | _ \<Rightarrow> False))"

text \<open>
  The type cast comes from \<^verbatim>\<open>converters.typecast_factory\<close>, which is not part of
  the sources at hand: it is the parameter \<open>typecast_factory\<close>. A cast that raises on
  a token is \<open>None\<close> there.
\<close>

definition generate_arg_options ::
  "('v param \<Rightarrow> (string \<Rightarrow> 'v option) option) \<Rightarrow> 'v param \<Rightarrow> 'v options" where
  "generate_arg_options typecast_factory p =
     (let typecast = typecast_factory p;
          options = \<lparr>opt_action = None, opt_type = None, opt_default = None\<rparr>;
          options =
            (if boolean_like p then
               (if kind p = POSITIONAL_ONLY then options\<lparr>opt_action := Some StoreTrue\<rparr>
                else options\<lparr>opt_action := Some BooleanOptionalAction\<rparr>)
             else if typecast \<noteq> None then options\<lparr>opt_type := typecast\<rparr>
             else options);
          options =
            (if opt_action options \<noteq> Some BooleanOptionalAction
             then options\<lparr>opt_default := Some SUPPRESS\<rparr> else options)
      in options)"

text \<open>
  One \<^verbatim>\<open>add_argument\<close> call: a positional argument, the catch-all
  \<^verbatim>\<open>'_positional_or_kw'\<close> with \<^verbatim>\<open>nargs='*'\<close> and \<^verbatim>\<open>default=[]\<close>, or an option.
  An option carries the flag the program builds,
  \<^verbatim>\<open>'--' + param.name.replace('_', '-')\<close>, and the parameter's name, under which
  \<^verbatim>\<open>parse_args\<close> looks its value up.
\<close>

datatype 'v argument =
  Positional string "'v options"
| CatchAll
| Option string string "'v options"

definition positional_or_kw :: string where
  "positional_or_kw = ''_positional_or_kw''"

definition flag_name :: "string \<Rightarrow> string" where
  "flag_name n = ''--'' @ map (\<lambda>c. if c = CHR ''_'' then CHR ''-'' else c) n"

definition generate_positional_only_args ::
  "('v param \<Rightarrow> (string \<Rightarrow> 'v option) option) \<Rightarrow> 'v params_meta \<Rightarrow> 'v argument list" where
  "generate_positional_only_args tf m =
     map (\<lambda>p. Positional (name p) (generate_arg_options tf p)) (m (Kind POSITIONAL_ONLY))"

definition generate_positional_or_keyword_args ::
  "('v param \<Rightarrow> (string \<Rightarrow> 'v option) option) \<Rightarrow> 'v params_meta \<Rightarrow> 'v argument list" where
  "generate_positional_or_keyword_args tf m =
     CatchAll #
     map (\<lambda>p. Option (flag_name (name p)) (name p) (generate_arg_options tf p))
       (m (Kind POSITIONAL_OR_KEYWORD))"

definition generate_keyword_only_args ::
  "('v param \<Rightarrow> (string \<Rightarrow> 'v option) option) \<Rightarrow> 'v params_meta \<Rightarrow> 'v argument list" where
  "generate_keyword_only_args tf m =
     map (\<lambda>p. Option (flag_name (name p)) (name p) (generate_arg_options tf p))
       (m (Kind KEYWORD_ONLY))"

definition generate_args ::
  "('v param \<Rightarrow> (string \<Rightarrow> 'v option) option) \<Rightarrow> 'v params_meta \<Rightarrow> 'v argument list" where
  "generate_args tf m =
     (if m (Kind POSITIONAL_ONLY) \<noteq> [] then generate_positional_only_args tf m else []) @
     (if m (Kind POSITIONAL_OR_KEYWORD) \<noteq> []
      then generate_positional_or_keyword_args tf m else []) @
     (if m (Kind KEYWORD_ONLY) \<noteq> [] then generate_keyword_only_args tf m else [])"

text \<open>The parser object after \<^verbatim>\<open>__init__\<close>.\<close>

record 'v parser =
  params_meta :: "'v params_meta"
  arguments :: "'v argument list"

definition init ::
  "('v param \<Rightarrow> (string \<Rightarrow> 'v option) option) \<Rightarrow> 'v param list \<Rightarrow> 'v parser" where
  "init tf ps =
     (let m = init_params_meta ps
      in \<lparr>params_meta = m, arguments = generate_args tf m\<rparr>)"

section \<open>The library's parse step\<close>

text \<open>
  \<^verbatim>\<open>super().parse_args\<close> belongs to the standard library. It is modelled at the
  interface the program relies on: the namespace it returns, as a dictionary keyed by
  parameter name, for a command line given as its unnamed tokens in order and its named
  options in order (\<^verbatim>\<open>--name token\<close> as \<open>Value token\<close>, \<^verbatim>\<open>--name\<close> and
  \<^verbatim>\<open>--no-name\<close> of a toggle as \<open>Toggle True\<close> and \<open>Toggle False\<close>).

  \<^item> An argument whose default is not \<^verbatim>\<open>SUPPRESS\<close> starts with its default in the
    namespace, unless the key is there already: \<^verbatim>\<open>None\<close> when no default was given
    (\<^verbatim>\<open>False\<close> for \<^verbatim>\<open>store_true\<close>), the list for the catch-all.
  \<^item> A positional argument with an action takes no token and its action always runs
    (\<^verbatim>\<open>store_true\<close> stores \<^verbatim>\<open>True\<close>; the toggle action stores nothing without an
    option string); any other positional takes exactly one token, cast by its
    \<^verbatim>\<open>type\<close>; the catch-all takes all tokens that are left; tokens nobody takes are
    rejected.
  \<^item> A named option stores the cast token, or the truth value of the toggle; a later
    occurrence overwrites an earlier one.

  The declarations are taken as the library accepts them, and the split of the command
  line into unnamed tokens and named options as the library makes it. The library derives
  the key of an option from its flag; for a parameter name that does not begin with an
  underscore that key is the parameter's name, which is the key used here.
\<close>

datatype given = Value string | Toggle bool

record cmdline =
  tokens :: "string list"
  named :: "(string \<times> given) list"

record 'v namespace =
  cmd_args :: "string \<rightharpoonup> 'v pyval"
  pool :: "string list"

definition action_default :: "'v options \<Rightarrow> 'v pyval" where
  "action_default opts = (if opt_action opts = Some StoreTrue then PBool False else PNone)"

definition set_default :: "string \<Rightarrow> 'v pyval \<Rightarrow> 'v namespace \<Rightarrow> 'v namespace" where
  "set_default dest v ns =
     (if cmd_args ns dest = None then ns\<lparr>cmd_args := (cmd_args ns)(dest \<mapsto> v)\<rparr> else ns)"

fun add_defaults :: "'v argument list \<Rightarrow> 'v namespace \<Rightarrow> 'v namespace" where
  "add_defaults [] ns = ns"
| "add_defaults (Positional dest opts # as) ns =
     add_defaults as
       (if opt_default opts = Some SUPPRESS then ns else set_default dest (action_default opts) ns)"
| "add_defaults (CatchAll # as) ns =
     add_defaults as (set_default positional_or_kw PPool ns)"
| "add_defaults (Option flag dest opts # as) ns =
     add_defaults as
       (if opt_default opts = Some SUPPRESS then ns else set_default dest (action_default opts) ns)"

definition get_value :: "'v options \<Rightarrow> string \<Rightarrow> 'v pyval option" where
  "get_value opts tok =
     (case opt_type opts of
        None \<Rightarrow> Some (PStr tok)
      | Some f \<Rightarrow> (case f tok of None \<Rightarrow> None | Some v \<Rightarrow> Some (PObj v)))"

fun consume_positionals ::
  "'v argument list \<Rightarrow> string list \<Rightarrow> 'v namespace \<Rightarrow> error + 'v namespace" where
  "consume_positionals [] toks ns = (if toks = [] then Inr ns else Inl ArgparseExit)"
| "consume_positionals (Positional dest opts # as) toks ns =
     (case opt_action opts of
        Some StoreTrue \<Rightarrow>
          consume_positionals as toks (ns\<lparr>cmd_args := (cmd_args ns)(dest \<mapsto> PBool True)\<rparr>)
      | Some BooleanOptionalAction \<Rightarrow> consume_positionals as toks ns
      | None \<Rightarrow>
          (case toks of
             [] \<Rightarrow> Inl ArgparseExit
           | tok # rest \<Rightarrow>
               (case get_value opts tok of
                  None \<Rightarrow> Inl ArgparseExit
                | Some v \<Rightarrow>
                    consume_positionals as rest
                      (ns\<lparr>cmd_args := (cmd_args ns)(dest \<mapsto> v)\<rparr>))))"
| "consume_positionals (CatchAll # as) toks ns =
     consume_positionals as []
       (ns\<lparr>cmd_args := (cmd_args ns)(positional_or_kw \<mapsto> PPool), pool := toks\<rparr>)"
| "consume_positionals (Option flag dest opts # as) toks ns = consume_positionals as toks ns"

fun find_option :: "'v argument list \<Rightarrow> string \<Rightarrow> 'v options option" where
  "find_option [] n = None"
| "find_option (Option flag dest opts # as) n =
     (if dest = n then Some opts else find_option as n)"
| "find_option (a # as) n = find_option as n"

fun consume_optionals ::
  "'v argument list \<Rightarrow> (string \<times> given) list \<Rightarrow> 'v namespace \<Rightarrow> error + 'v namespace" where
  "consume_optionals as [] ns = Inr ns"
| "consume_optionals as ((n, g) # rest) ns =
     (case find_option as n of
        None \<Rightarrow> Inl ArgparseExit
      | Some opts \<Rightarrow>
          (case (opt_action opts, g) of
             (None, Value tok) \<Rightarrow>
               (case get_value opts tok of
                  None \<Rightarrow> Inl ArgparseExit
                | Some v \<Rightarrow>
                    consume_optionals as rest (ns\<lparr>cmd_args := (cmd_args ns)(n \<mapsto> v)\<rparr>))
           | (Some BooleanOptionalAction, Toggle b) \<Rightarrow>
               consume_optionals as rest (ns\<lparr>cmd_args := (cmd_args ns)(n \<mapsto> PBool b)\<rparr>)
           | (Some StoreTrue, Toggle True) \<Rightarrow>
               consume_optionals as rest (ns\<lparr>cmd_args := (cmd_args ns)(n \<mapsto> PBool True)\<rparr>)
           | _ \<Rightarrow> Inl ArgparseExit))"

definition super_parse_args :: "'v argument list \<Rightarrow> cmdline \<Rightarrow> error + 'v namespace" where
  "super_parse_args as cl =
     (case consume_positionals as (tokens cl)
             (add_defaults as \<lparr>cmd_args = Map.empty, pool = []\<rparr>) of
        Inl e \<Rightarrow> Inl e
      | Inr ns \<Rightarrow> consume_optionals as (named cl) ns)"

section \<open>Resolution: \<^verbatim>\<open>parse_args\<close>\<close>

text \<open>
  The state of the method body: the dictionary \<^verbatim>\<open>cmd_args\<close> with the contents of
  the catch-all list, and the \<^verbatim>\<open>args\<close> and \<^verbatim>\<open>kwargs\<close> built so far.
\<close>

record 'v state = "'v namespace" +
  args :: "'v pyval list"
  kwargs :: "string \<rightharpoonup> 'v pyval"

text \<open>First loop: \<^verbatim>\<open>cmd_args[param.name]\<close> raises \<^verbatim>\<open>KeyError\<close> on a missing key.\<close>

fun positional_only_loop :: "'v param list \<Rightarrow> 'v state \<Rightarrow> error + 'v state" where
  "positional_only_loop [] s = Inr s"
| "positional_only_loop (p # ps) s =
     (case cmd_args s (name p) of
        None \<Rightarrow> Inl (KeyError (name p))
      | Some v \<Rightarrow> positional_only_loop ps (s\<lparr>args := args s @ [v]\<rparr>))"

text \<open>
  Second loop. \<^verbatim>\<open>cmd_args['_positional_or_kw'].pop(0)\<close> raises \<^verbatim>\<open>KeyError\<close> without
  the key, \<^verbatim>\<open>AttributeError\<close> on a value that is no list, and \<^verbatim>\<open>IndexError\<close> on the
  empty list; only the last is caught.
\<close>

definition positional_or_keyword_step :: "'v param \<Rightarrow> 'v state \<Rightarrow> error + 'v state" where
  "positional_or_keyword_step p s =
     (case cmd_args s (name p) of
        Some v \<Rightarrow> Inr (s\<lparr>kwargs := (kwargs s)(name p \<mapsto> v)\<rparr>)
      | None \<Rightarrow>
          (case cmd_args s positional_or_kw of
             None \<Rightarrow> Inl (KeyError positional_or_kw)
           | Some PPool \<Rightarrow>
               (case pool s of
                  [] \<Rightarrow> Inr s
                | raw_value # rest \<Rightarrow>
                    Inr (s\<lparr>pool := rest,
                           kwargs := (kwargs s)(name p \<mapsto> PStr raw_value),
                           cmd_args := (cmd_args s)(name p \<mapsto> PStr raw_value)\<rparr>))
           | Some _ \<Rightarrow> Inl AttributeError))"

fun positional_or_keyword_loop :: "'v param list \<Rightarrow> 'v state \<Rightarrow> error + 'v state" where
  "positional_or_keyword_loop [] s = Inr s"
| "positional_or_keyword_loop (p # ps) s =
     (case positional_or_keyword_step p s of
        Inl e \<Rightarrow> Inl e
      | Inr s' \<Rightarrow> positional_or_keyword_loop ps s')"

text \<open>Third loop.\<close>

fun keyword_only_loop :: "'v param list \<Rightarrow> 'v state \<Rightarrow> 'v state" where
  "keyword_only_loop [] s = s"
| "keyword_only_loop (p # ps) s =
     keyword_only_loop ps
       (case cmd_args s (name p) of
          Some v \<Rightarrow> s\<lparr>kwargs := (kwargs s)(name p \<mapsto> v)\<rparr>
        | None \<Rightarrow> s)"

text \<open>
  Fourth loop: \<^verbatim>\<open>self.error\<close> prints the message and exits, so the loop ends at the
  first parameter whose name is not a key of \<^verbatim>\<open>cmd_args\<close>.
\<close>

definition required_message :: "string \<Rightarrow> string" where
  "required_message n = ''the following arguments are required: '' @ n"

fun required_loop :: "'v param list \<Rightarrow> 'v state \<Rightarrow> error + unit" where
  "required_loop [] s = Inr ()"
| "required_loop (p # ps) s =
     (if cmd_args s (name p) = None then Inl (ParserError (required_message (name p)))
      else required_loop ps s)"

text \<open>
  The three binding loops in sequence, and then the whole body after the library's parse.
  The result is \<^verbatim>\<open>(args, kwargs)\<close>, with the final contents of the catch-all list for
  the values that refer to it.
\<close>

definition bind_loops :: "'v params_meta \<Rightarrow> 'v namespace \<Rightarrow> error + 'v state" where
  "bind_loops m ns =
     (case positional_only_loop (m (Kind POSITIONAL_ONLY))
             \<lparr>cmd_args = cmd_args ns, pool = pool ns, args = [], kwargs = Map.empty\<rparr> of
        Inl e \<Rightarrow> Inl e
      | Inr s1 \<Rightarrow>
          (case positional_or_keyword_loop (m (Kind POSITIONAL_OR_KEYWORD)) s1 of
             Inl e \<Rightarrow> Inl e
           | Inr s2 \<Rightarrow> Inr (keyword_only_loop (m (Kind KEYWORD_ONLY)) s2)))"

definition resolve ::
  "'v params_meta \<Rightarrow> 'v namespace \<Rightarrow>
     error + ('v pyval list \<times> (string \<rightharpoonup> 'v pyval) \<times> string list)" where
  "resolve m ns =
     (case bind_loops m ns of
        Inl e \<Rightarrow> Inl e
      | Inr s \<Rightarrow>
          (case required_loop (m REQUIRED) s of
             Inl e \<Rightarrow> Inl e
           | Inr u \<Rightarrow> Inr (args s, kwargs s, pool s)))"

definition parse_args ::
  "'v parser \<Rightarrow> cmdline \<Rightarrow>
     error + ('v pyval list \<times> (string \<rightharpoonup> 'v pyval) \<times> string list)" where
  "parse_args self cl =
     (case super_parse_args (arguments self) cl of
        Inl e \<Rightarrow> Inl e
      | Inr ns \<Rightarrow> resolve (params_meta self) ns)"

section \<open>Example signatures\<close>

text \<open>No parameter has a type cast.\<close>

definition no_typecast :: "int param \<Rightarrow> (string \<Rightarrow> int option) option" where
  "no_typecast p = None"

text \<open>
  A cast for the parameters annotated with a type other than \<^verbatim>\<open>bool\<close>: it reads
  \<^verbatim>\<open>'0'\<close> and \<^verbatim>\<open>'1'\<close> and raises on any other token.
\<close>

definition bit_typecast :: "int param \<Rightarrow> (string \<Rightarrow> int option) option" where
  "bit_typecast p =
     (case annotation p of
        AnnOther t \<Rightarrow>
          Some (\<lambda>tok. if tok = ''0'' then Some 0 else if tok = ''1'' then Some 1 else None)
      | _ \<Rightarrow> None)"

text \<open>\<^verbatim>\<open>def f(a, /, b=1, *, c)\<close>\<close>

definition sig_abc :: "int param list" where
  "sig_abc =
     [\<lparr>name = ''a'', kind = POSITIONAL_ONLY, annotation = AnnEmpty, default_value = None\<rparr>,
      \<lparr>name = ''b'', kind = POSITIONAL_OR_KEYWORD, annotation = AnnEmpty,
         default_value = Some (PObj 1)\<rparr>,
      \<lparr>name = ''c'', kind = KEYWORD_ONLY, annotation = AnnEmpty, default_value = None\<rparr>]"

text \<open>\<^verbatim>\<open>def f(x=None, y=None)\<close>\<close>

definition sig_xy :: "int param list" where
  "sig_xy =
     [\<lparr>name = ''x'', kind = POSITIONAL_OR_KEYWORD, annotation = AnnEmpty,
         default_value = Some PNone\<rparr>,
      \<lparr>name = ''y'', kind = POSITIONAL_OR_KEYWORD, annotation = AnnEmpty,
         default_value = Some PNone\<rparr>]"

text \<open>\<^verbatim>\<open>def f(*, c, d)\<close>\<close>

definition sig_cd :: "int param list" where
  "sig_cd =
     [\<lparr>name = ''c'', kind = KEYWORD_ONLY, annotation = AnnEmpty, default_value = None\<rparr>,
      \<lparr>name = ''d'', kind = KEYWORD_ONLY, annotation = AnnEmpty, default_value = None\<rparr>]"


text \<open>\<^verbatim>\<open>def f(flag: bool, /)\<close>\<close>

definition sig_flag_only :: "int param list" where
  "sig_flag_only =
     [\<lparr>name = ''flag'', kind = POSITIONAL_ONLY, annotation = AnnBool, default_value = None\<rparr>]"

text \<open>\<^verbatim>\<open>def f(m: int, n: int, /)\<close>\<close>

definition sig_mn :: "int param list" where
  "sig_mn =
     [\<lparr>name = ''m'', kind = POSITIONAL_ONLY, annotation = AnnOther ''int'',
         default_value = None\<rparr>,
      \<lparr>name = ''n'', kind = POSITIONAL_ONLY, annotation = AnnOther ''int'',
         default_value = None\<rparr>]"



section \<open>Classification is a stable partition\<close>

lemma fold_init_step_kind:
  "fold init_step ps m (Kind k) = m (Kind k) @ filter (\<lambda>p. kind p = k) ps"
  by (induction ps arbitrary: m) (auto simp: init_step_def append_meta_def Let_def)

lemma fold_init_step_required:
  "fold init_step ps m REQUIRED = m REQUIRED @ filter (\<lambda>p. default_value p = None) ps"
  by (induction ps arbitrary: m) (auto simp: init_step_def append_meta_def Let_def)

lemma meta_kind: "init_params_meta ps (Kind k) = filter (\<lambda>p. kind p = k) ps"
  by (simp add: init_params_meta_def fold_init_step_kind)

lemma meta_required: "init_params_meta ps REQUIRED = filter (\<lambda>p. default_value p = None) ps"
  by (simp add: init_params_meta_def fold_init_step_required)

section \<open>The loops of \<^verbatim>\<open>parse_args\<close>\<close>

lemma required_loop_first:
  "required_loop req s =
     (case filter (\<lambda>p. cmd_args s (name p) = None) req of
        [] \<Rightarrow> Inr ()
      | p # _ \<Rightarrow> Inl (ParserError (required_message (name p))))"
  by (induction req) auto

lemma positional_only_loop_Inr:
  "positional_only_loop ps s = Inr s' \<Longrightarrow>
     map Some (args s') = map Some (args s) @ map (\<lambda>q. cmd_args s (name q)) ps \<and>
     cmd_args s' = cmd_args s \<and> pool s' = pool s \<and> kwargs s' = kwargs s"
  by (induction ps arbitrary: s) (auto split: option.splits)

lemma pok_step_Inr:
  "positional_or_keyword_step p s = Inr s' \<Longrightarrow>
     args s' = args s \<and>
     (\<forall>n. kwargs s n \<noteq> None \<longrightarrow> kwargs s' n \<noteq> None) \<and>
     (\<forall>n. cmd_args s n \<noteq> None \<longrightarrow> cmd_args s' n = cmd_args s n) \<and>
     (cmd_args s (name p) \<noteq> None \<longrightarrow> kwargs s' (name p) \<noteq> None) \<and>
     (\<forall>n. cmd_args s' n \<noteq> None \<longrightarrow> cmd_args s n \<noteq> None \<or> (n = name p \<and> kwargs s' n \<noteq> None))"
  by (auto simp: positional_or_keyword_step_def split: option.splits pyval.splits list.splits)

lemma pok_loop_Inr:
  "positional_or_keyword_loop ps s = Inr s' \<Longrightarrow>
     args s' = args s \<and>
     (\<forall>n. kwargs s n \<noteq> None \<longrightarrow> kwargs s' n \<noteq> None) \<and>
     (\<forall>n. cmd_args s n \<noteq> None \<longrightarrow> cmd_args s' n = cmd_args s n) \<and>
     (\<forall>n. cmd_args s' n \<noteq> None \<longrightarrow>
          kwargs s' n \<noteq> None \<or> (cmd_args s n \<noteq> None \<and> n \<notin> name ` set ps))"
proof (induction ps arbitrary: s)
  case Nil
  then show ?case by simp
next
  case (Cons p ps)
  from Cons.prems obtain s1 where
    s1: "positional_or_keyword_step p s = Inr s1" and
    l: "positional_or_keyword_loop ps s1 = Inr s'"
    by (auto split: sum.splits)
  note st = pok_step_Inr[OF s1]
  note ih = Cons.IH[OF l]
  show ?case
  proof (intro conjI allI impI)
    show "args s' = args s" using st ih by simp
  next
    fix n assume "kwargs s n \<noteq> None"
    then show "kwargs s' n \<noteq> None" using st ih by blast
  next
    fix n assume "cmd_args s n \<noteq> None"
    then show "cmd_args s' n = cmd_args s n" using st ih by metis
  next
    fix n assume a: "cmd_args s' n \<noteq> None"
    show "kwargs s' n \<noteq> None \<or> (cmd_args s n \<noteq> None \<and> n \<notin> name ` set (p # ps))"
    proof (cases "kwargs s' n \<noteq> None")
      case True then show ?thesis by simp
    next
      case False
      with ih a have c1: "cmd_args s1 n \<noteq> None" and nps: "n \<notin> name ` set ps" by blast+
      from False ih have k1: "kwargs s1 n = None" by blast
      from st c1 k1 have c0: "cmd_args s n \<noteq> None" by blast
      from st k1 c0 have "n \<noteq> name p" by blast
      with c0 nps show ?thesis by simp
    qed
  qed
qed

lemma keyword_only_loop_props:
  "args (keyword_only_loop ps s) = args s \<and>
   cmd_args (keyword_only_loop ps s) = cmd_args s \<and>
   pool (keyword_only_loop ps s) = pool s \<and>
   (\<forall>n. kwargs s n \<noteq> None \<longrightarrow> kwargs (keyword_only_loop ps s) n \<noteq> None) \<and>
   (\<forall>n\<in>name ` set ps. cmd_args s n \<noteq> None \<longrightarrow> kwargs (keyword_only_loop ps s) n \<noteq> None)"
proof (induction ps arbitrary: s)
  case Nil
  then show ?case by simp
next
  case (Cons p ps)
  show ?case
  proof (cases "cmd_args s (name p)")
    case None
    with Cons.IH[of s] show ?thesis by auto
  next
    case (Some v)
    with Cons.IH[of "s\<lparr>kwargs := (kwargs s)(name p \<mapsto> v)\<rparr>"] show ?thesis by auto
  qed
qed

lemma pok_loop_unset:
  "distinct (map name ps) \<Longrightarrow> \<forall>p\<in>set ps. cmd_args s (name p) = None \<Longrightarrow>
   cmd_args s positional_or_kw = Some PPool \<Longrightarrow>
   positional_or_keyword_loop ps s =
     Inr (s\<lparr>pool := drop (length ps) (pool s),
            kwargs := (kwargs s)(map name ps [\<mapsto>] map PStr (pool s)),
            cmd_args := (cmd_args s)(map name ps [\<mapsto>] map PStr (pool s))\<rparr>)"
proof (induction ps arbitrary: s)
  case Nil
  then show ?case by simp
next
  case (Cons p ps)
  show ?case
  proof (cases "pool s")
    case Nil
    with Cons.prems have "positional_or_keyword_step p s = Inr s"
      by (simp add: positional_or_keyword_step_def)
    moreover have "positional_or_keyword_loop ps s = Inr (s\<lparr>pool := drop (length ps) (pool s),
            kwargs := (kwargs s)(map name ps [\<mapsto>] map PStr (pool s)),
            cmd_args := (cmd_args s)(map name ps [\<mapsto>] map PStr (pool s))\<rparr>)"
      using Cons.prems by (intro Cons.IH) auto
    ultimately show ?thesis using Nil by simp
  next
    case (Cons t ts)
    define s1 where "s1 = s\<lparr>pool := ts, kwargs := (kwargs s)(name p \<mapsto> PStr t),
                           cmd_args := (cmd_args s)(name p \<mapsto> PStr t)\<rparr>"
    from Cons.prems Cons have st: "positional_or_keyword_step p s = Inr s1"
      by (simp add: positional_or_keyword_step_def s1_def)
    have ne: "name p \<noteq> positional_or_kw" using Cons.prems by auto
    have d: "distinct (map name ps)" using Cons.prems by simp
    have u: "\<forall>q\<in>set ps. cmd_args s1 (name q) = None"
    proof
      fix q assume q: "q \<in> set ps"
      have "name p \<notin> set (map name ps)" using Cons.prems(1) by simp
      moreover have "name q \<in> set (map name ps)" using q by simp
      ultimately have "name q \<noteq> name p" by metis
      with q Cons.prems show "cmd_args s1 (name q) = None" by (simp add: s1_def)
    qed
    have k: "cmd_args s1 positional_or_kw = Some PPool"
      using Cons.prems ne by (simp add: s1_def)
    have "positional_or_keyword_loop ps s1 = Inr (s1\<lparr>pool := drop (length ps) (pool s1),
            kwargs := (kwargs s1)(map name ps [\<mapsto>] map PStr (pool s1)),
            cmd_args := (cmd_args s1)(map name ps [\<mapsto>] map PStr (pool s1))\<rparr>)"
      by (rule Cons.IH[OF d u k])
    with st show ?thesis using Cons by (simp add: s1_def)
  qed
qed

lemma bind_loops_Inr:
  assumes "bind_loops m ns = Inr s"
  shows "map Some (args s) = map (\<lambda>q. cmd_args ns (name q)) (m (Kind POSITIONAL_ONLY))"
    and "\<forall>p\<in>set (m (Kind POSITIONAL_OR_KEYWORD)) \<union> set (m (Kind KEYWORD_ONLY)).
           cmd_args s (name p) \<noteq> None \<longrightarrow> kwargs s (name p) \<noteq> None"
proof -
  from assms obtain s1 s2 where
    s1: "positional_only_loop (m (Kind POSITIONAL_ONLY))
           \<lparr>cmd_args = cmd_args ns, pool = pool ns, args = [], kwargs = Map.empty\<rparr> = Inr s1" and
    s2: "positional_or_keyword_loop (m (Kind POSITIONAL_OR_KEYWORD)) s1 = Inr s2" and
    s: "s = keyword_only_loop (m (Kind KEYWORD_ONLY)) s2"
    by (auto simp: bind_loops_def split: sum.splits)
  note a1 = positional_only_loop_Inr[OF s1]
  note a2 = pok_loop_Inr[OF s2]
  note a3 = keyword_only_loop_props[of "m (Kind KEYWORD_ONLY)" s2]
  show "map Some (args s) = map (\<lambda>q. cmd_args ns (name q)) (m (Kind POSITIONAL_ONLY))"
    using a1 a2 a3 s by simp
  show "\<forall>p\<in>set (m (Kind POSITIONAL_OR_KEYWORD)) \<union> set (m (Kind KEYWORD_ONLY)).
           cmd_args s (name p) \<noteq> None \<longrightarrow> kwargs s (name p) \<noteq> None"
  proof (intro ballI impI)
    fix p assume p: "p \<in> set (m (Kind POSITIONAL_OR_KEYWORD)) \<union> set (m (Kind KEYWORD_ONLY))"
      and c: "cmd_args s (name p) \<noteq> None"
    from c s a3 have c2: "cmd_args s2 (name p) \<noteq> None" by simp
    from p show "kwargs s (name p) \<noteq> None"
    proof
      assume "p \<in> set (m (Kind POSITIONAL_OR_KEYWORD))"
      then have "name p \<in> name ` set (m (Kind POSITIONAL_OR_KEYWORD))" by simp
      with a2 c2 have "kwargs s2 (name p) \<noteq> None" by blast
      with a3 s show ?thesis by blast
    next
      assume "p \<in> set (m (Kind KEYWORD_ONLY))"
      then have "name p \<in> name ` set (m (Kind KEYWORD_ONLY))" by simp
      with a3 c2 s show ?thesis by blast
    qed
  qed
qed

lemma required_loop_Inr:
  "required_loop req s = Inr u \<Longrightarrow> \<forall>p\<in>set req. cmd_args s (name p) \<noteq> None"
  by (induction req) (auto split: if_splits)

section \<open>The generated declarations\<close>

lemma gao_action:
  "opt_action (generate_arg_options tf p) =
     (if boolean_like p
      then (if kind p = POSITIONAL_ONLY then Some StoreTrue else Some BooleanOptionalAction)
      else None)"
  by (simp add: generate_arg_options_def Let_def)

lemma gao_type:
  "opt_type (generate_arg_options tf p) = (if boolean_like p then None else tf p)"
  by (cases "tf p") (simp_all add: generate_arg_options_def Let_def)

lemma gao_default:
  "(opt_default (generate_arg_options tf p) = Some SUPPRESS) =
     (\<not> (boolean_like p \<and> kind p \<noteq> POSITIONAL_ONLY))"
  by (simp add: generate_arg_options_def Let_def)

lemma generate_args_shape:
  "generate_args tf (init_params_meta ps) =
     map (\<lambda>p. Positional (name p) (generate_arg_options tf p))
       (filter (\<lambda>p. kind p = POSITIONAL_ONLY) ps) @
     (if filter (\<lambda>p. kind p = POSITIONAL_OR_KEYWORD) ps \<noteq> []
      then CatchAll #
        map (\<lambda>p. Option (flag_name (name p)) (name p) (generate_arg_options tf p))
          (filter (\<lambda>p. kind p = POSITIONAL_OR_KEYWORD) ps)
      else []) @
     map (\<lambda>p. Option (flag_name (name p)) (name p) (generate_arg_options tf p))
       (filter (\<lambda>p. kind p = KEYWORD_ONLY) ps)"
  by (simp add: generate_args_def generate_positional_only_args_def
        generate_positional_or_keyword_args_def generate_keyword_only_args_def meta_kind)



lemma generated_catch_all:
  "(CatchAll \<in> set (generate_args tf (init_params_meta ps))) =
     (\<exists>p\<in>set ps. kind p = POSITIONAL_OR_KEYWORD)"
  unfolding generate_args_shape by (simp add: image_iff filter_empty_conv)





section \<open>The namespace of the parse step\<close>

lemma set_default_other [simp]:
  "d \<noteq> k \<Longrightarrow> cmd_args (set_default d v ns) k = cmd_args ns k"
  by (simp add: set_default_def)

lemma set_default_other' [simp]:
  "k \<noteq> d \<Longrightarrow> cmd_args (set_default d v ns) k = cmd_args ns k"
  by (simp add: set_default_def)

lemma set_default_same:
  "cmd_args (set_default k v ns) k = (case cmd_args ns k of None \<Rightarrow> Some v | Some w \<Rightarrow> Some w)"
  by (simp add: set_default_def split: option.splits)

lemma set_default_pool [simp]: "pool (set_default d v ns) = pool ns"
  by (simp add: set_default_def)


lemma add_defaults_keep:
  "cmd_args ns k = Some v \<Longrightarrow> cmd_args (add_defaults as ns) k = Some v"
proof (induction as arbitrary: ns)
  case Nil
  then show ?case by simp
next
  case (Cons a as)
  have sd: "cmd_args (set_default d w ns) k = Some v" for d w
    using Cons.prems by (cases "d = k") (auto simp: set_default_def)
  show ?case
  proof (cases a)
    case (Positional d opts)
    then show ?thesis using Cons.IH[OF sd] Cons.IH[OF Cons.prems] by simp
  next
    case CatchAll
    then show ?thesis using Cons.IH[OF sd] by simp
  next
    case (Option f d opts)
    then show ?thesis using Cons.IH[OF sd] Cons.IH[OF Cons.prems] by simp
  qed
qed




lemma add_defaults_catch_all:
  "CatchAll \<in> set as \<Longrightarrow> cmd_args (add_defaults as ns) positional_or_kw \<noteq> None"
proof (induction as arbitrary: ns)
  case Nil
  then show ?case by simp
next
  case (Cons a as)
  show ?case
  proof (cases "a = CatchAll")
    case True
    obtain w where "cmd_args (set_default positional_or_kw PPool ns) positional_or_kw = Some w"
      by (cases "cmd_args ns positional_or_kw") (simp_all add: set_default_same)
    from add_defaults_keep[OF this] show ?thesis using True by simp
  next
    case False
    with Cons.prems have "CatchAll \<in> set as" by simp
    from Cons.IH[OF this] show ?thesis by (cases a) simp_all
  qed
qed



lemma consume_optionals_frame:
  "consume_optionals as nm ns = Inr ns' \<Longrightarrow>
     pool ns' = pool ns \<and>
     (\<forall>k. k \<notin> fst ` set nm \<longrightarrow> cmd_args ns' k = cmd_args ns k) \<and>
     (\<forall>k. cmd_args ns k \<noteq> None \<longrightarrow> cmd_args ns' k \<noteq> None) \<and>
     (\<forall>k\<in>fst ` set nm. find_option as k \<noteq> None)"
proof (induction as nm ns rule: consume_optionals.induct)
  case (1 as ns)
  then show ?case by simp
next
  case (2 as n g rest ns)
  then show ?case
    by (auto split: option.splits action.splits given.splits bool.splits)
qed







lemma super_parse_args_Inr:
  assumes "super_parse_args as cl = Inr ns"
  obtains ns1 where
    "consume_positionals as (tokens cl) (add_defaults as \<lparr>cmd_args = Map.empty, pool = []\<rparr>) = Inr ns1"
    "consume_optionals as (named cl) ns1 = Inr ns"
  using assms by (auto simp: super_parse_args_def split: sum.splits)







section \<open>Results and errors of the loops\<close>













lemma arguments_init: "arguments (init tf ps) = generate_args tf (init_params_meta ps)"
  and params_meta_init: "params_meta (init tf ps) = init_params_meta ps"
  by (simp_all add: init_def Let_def)

lemmas eval_defs =
  parse_args_def init_def Let_def meta_kind meta_required
  generate_args_def generate_positional_only_args_def
  generate_positional_or_keyword_args_def generate_keyword_only_args_def
  generate_arg_options_def boolean_like_def
  super_parse_args_def set_default_def action_default_def get_value_def
  resolve_def bind_loops_def positional_or_keyword_step_def positional_or_kw_def
  flag_name_def required_message_def




section \<open>Positional tokens\<close>

lemma add_defaults_positional_only:
  "\<forall>p\<in>set ps. kind p = POSITIONAL_ONLY \<Longrightarrow>
   add_defaults (map (\<lambda>p. Positional (name p) (generate_arg_options tf p)) ps) ns = ns"
  by (induction ps arbitrary: ns) (simp_all add: gao_default)

lemma consume_positionals_values:
  "list_all2 (\<lambda>p tok. \<not> boolean_like p \<and> get_value (generate_arg_options tf p) tok \<noteq> None)
     ps toks \<Longrightarrow>
   consume_positionals (map (\<lambda>p. Positional (name p) (generate_arg_options tf p)) ps) toks ns =
     Inr (ns\<lparr>cmd_args := (cmd_args ns)(map name ps [\<mapsto>]
            map2 (\<lambda>p tok. the (get_value (generate_arg_options tf p) tok)) ps toks)\<rparr>)"
proof (induction ps toks arbitrary: ns rule: list_all2_induct)
  case Nil
  show ?case by simp
next
  case (Cons p ps tok toks)
  from Cons.hyps(1) obtain v where v: "get_value (generate_arg_options tf p) tok = Some v"
    by auto
  from Cons.hyps(1) have a: "opt_action (generate_arg_options tf p) = None"
    by (simp add: gao_action)
  let ?rest = "map (\<lambda>p. Positional (name p) (generate_arg_options tf p)) ps"
  let ?ns1 = "ns\<lparr>cmd_args := (cmd_args ns)(name p \<mapsto> v)\<rparr>"
  have "consume_positionals (map (\<lambda>p. Positional (name p) (generate_arg_options tf p)) (p # ps))
          (tok # toks) ns = consume_positionals ?rest toks ?ns1"
    using v a by simp
  also have "\<dots> = Inr (?ns1\<lparr>cmd_args := (cmd_args ?ns1)(map name ps [\<mapsto>]
            map2 (\<lambda>p tok. the (get_value (generate_arg_options tf p) tok)) ps toks)\<rparr>)"
    by (rule Cons.IH)
  also have "?ns1\<lparr>cmd_args := (cmd_args ?ns1)(map name ps [\<mapsto>]
            map2 (\<lambda>p tok. the (get_value (generate_arg_options tf p) tok)) ps toks)\<rparr> =
      ns\<lparr>cmd_args := (cmd_args ns)(map name (p # ps) [\<mapsto>]
            map2 (\<lambda>p tok. the (get_value (generate_arg_options tf p) tok)) (p # ps) (tok # toks))\<rparr>"
    using v by simp
  finally show ?case .
qed

lemma positional_only_loop_values:
  "\<forall>p\<in>set ps. cmd_args s (name p) \<noteq> None \<Longrightarrow>
   positional_only_loop ps s = Inr (s\<lparr>args := args s @ map (\<lambda>p. the (cmd_args s (name p))) ps\<rparr>)"
proof (induction ps arbitrary: s)
  case Nil
  show ?case by simp
next
  case (Cons p ps)
  from Cons.prems obtain v where v: "cmd_args s (name p) = Some v" by auto
  have "\<forall>q\<in>set ps. cmd_args (s\<lparr>args := args s @ [v]\<rparr>) (name q) \<noteq> None"
    using Cons.prems by simp
  from Cons.IH[OF this] v show ?case by simp
qed

lemma map_upds_nth:
  "distinct xs \<Longrightarrow> length xs = length ys \<Longrightarrow> i < length xs \<Longrightarrow>
   (m(xs [\<mapsto>] ys)) (xs ! i) = Some (ys ! i)"
proof (induction xs arbitrary: ys i m)
  case Nil
  then show ?case by simp
next
  case (Cons x xs)
  from Cons.prems(2) obtain y ys' where ys: "ys = y # ys'" by (cases ys) auto
  show ?case
  proof (cases i)
    case 0
    with Cons.prems(1) ys show ?thesis by simp
  next
    case (Suc j)
    from Cons.prems(1) have dx: "distinct xs" by simp
    from Cons.prems(2) ys have l: "length xs = length ys'" by simp
    from Cons.prems(3) Suc have j: "j < length xs" by simp
    have "(m(x # xs [\<mapsto>] y # ys')) ((x # xs) ! Suc j) = ((m(x \<mapsto> y))(xs [\<mapsto>] ys')) (xs ! j)"
      by simp
    also have "\<dots> = Some (ys' ! j)" by (rule Cons.IH[OF dx l j])
    finally show ?thesis using ys Suc by simp
  qed
qed

lemma required_loop_all_present:
  "\<forall>p\<in>set req. cmd_args s (name p) \<noteq> None \<Longrightarrow> required_loop req s = Inr ()"
  by (induction req) auto

lemma get_value_generated:
  "\<not> boolean_like p \<Longrightarrow>
   get_value (generate_arg_options tf p) tok =
     (case tf p of None \<Rightarrow> Some (PStr tok)
      | Some f \<Rightarrow> (case f tok of None \<Rightarrow> None | Some v \<Rightarrow> Some (PObj v)))"
  by (simp add: get_value_def gao_type)

lemma resolve_first_missing:
  "resolve m ns =
     (case bind_loops m ns of
        Inl e \<Rightarrow> Inl e
      | Inr s \<Rightarrow>
          (case filter (\<lambda>p. cmd_args s (name p) = None) (m REQUIRED) of
             [] \<Rightarrow> Inr (args s, kwargs s, pool s)
           | p # rest \<Rightarrow> Inl (ParserError (required_message (name p)))))"
  by (simp add: resolve_def required_loop_first split: sum.splits list.splits)

lemma sig_abc_arguments:
  "arguments (init tf sig_abc) =
     [Positional ''a'' \<lparr>opt_action = None, opt_type = tf (sig_abc ! 0), opt_default = Some SUPPRESS\<rparr>,
      CatchAll,
      Option ''--b'' ''b''
        \<lparr>opt_action = None, opt_type = tf (sig_abc ! 1), opt_default = Some SUPPRESS\<rparr>,
      Option ''--c'' ''c''
        \<lparr>opt_action = None, opt_type = tf (sig_abc ! 2), opt_default = Some SUPPRESS\<rparr>]"
  by (cases "tf (sig_abc ! 0)"; cases "tf (sig_abc ! 1)"; cases "tf (sig_abc ! 2)")
     (simp_all add: init_def Let_def meta_kind generate_args_def
        generate_positional_only_args_def generate_positional_or_keyword_args_def
        generate_keyword_only_args_def generate_arg_options_def boolean_like_def
        flag_name_def sig_abc_def)

lemma sig_abc_namespace:
  assumes s: "super_parse_args (arguments (init tf sig_abc)) cl = Inr ns"
    and u: "''c'' \<notin> fst ` set (named cl)"
  shows "cmd_args ns ''a'' \<noteq> None \<and> cmd_args ns positional_or_kw = Some PPool \<and>
         cmd_args ns ''c'' = None"
proof -
  let ?as = "arguments (init tf sig_abc)"
  from super_parse_args_Inr[OF s] obtain ns1 where
    c1: "consume_positionals ?as (tokens cl)
           (add_defaults ?as \<lparr>cmd_args = Map.empty, pool = []\<rparr>) = Inr ns1" and
    c2: "consume_optionals ?as (named cl) ns1 = Inr ns" by blast
  from c1 have n1: "cmd_args ns1 ''a'' \<noteq> None \<and> cmd_args ns1 positional_or_kw = Some PPool \<and>
      cmd_args ns1 ''c'' = None"
    unfolding sig_abc_arguments
    by (auto simp: set_default_def positional_or_kw_def split: list.splits option.splits)
  note fr = consume_optionals_frame[OF c2]
  have fa: "find_option ?as ''a'' = None" and fk: "find_option ?as positional_or_kw = None"
    unfolding sig_abc_arguments by (simp_all add: positional_or_kw_def)
  from fr fa have "''a'' \<notin> fst ` set (named cl)" by blast
  moreover from fr fk have "positional_or_kw \<notin> fst ` set (named cl)" by blast
  ultimately show ?thesis using fr n1 u by simp
qed





section \<open>The claims\<close>

subsection \<open>Classification\<close>

text \<open>
  C6. The loop of \<^verbatim>\<open>__init__\<close> is a single pass: the bucket of every kind is the
  parameter list filtered by that kind, so within a bucket nothing is dropped, duplicated
  or reordered, and the required bucket is the list filtered by the absence of a default.
  A parameter of one of the three kinds the parser reads is in exactly one of the three
  buckets, and (names being unique) a parameter's name is a required name if and only if
  the parameter has no default.
\<close>

theorem classification_partition:
  "(\<forall>k. init_params_meta ps (Kind k) = filter (\<lambda>p. kind p = k) ps) \<and>
   init_params_meta ps REQUIRED = filter (\<lambda>p. default_value p = None) ps \<and>
   (\<forall>p\<in>set ps. kind p \<in> {POSITIONAL_ONLY, POSITIONAL_OR_KEYWORD, KEYWORD_ONLY} \<longrightarrow>
      (\<exists>!k. k \<in> {POSITIONAL_ONLY, POSITIONAL_OR_KEYWORD, KEYWORD_ONLY} \<and>
            p \<in> set (init_params_meta ps (Kind k)))) \<and>
   (distinct (map name ps) \<longrightarrow>
      (\<forall>p\<in>set ps. (name p \<in> name ` set (init_params_meta ps REQUIRED)) = (default_value p = None)))"
proof (intro conjI)
  show "\<forall>k. init_params_meta ps (Kind k) = filter (\<lambda>p. kind p = k) ps"
    by (simp add: meta_kind)
  show "init_params_meta ps REQUIRED = filter (\<lambda>p. default_value p = None) ps"
    by (rule meta_required)
  show "\<forall>p\<in>set ps. kind p \<in> {POSITIONAL_ONLY, POSITIONAL_OR_KEYWORD, KEYWORD_ONLY} \<longrightarrow>
      (\<exists>!k. k \<in> {POSITIONAL_ONLY, POSITIONAL_OR_KEYWORD, KEYWORD_ONLY} \<and>
            p \<in> set (init_params_meta ps (Kind k)))"
    by (auto simp: meta_kind)
  show "distinct (map name ps) \<longrightarrow>
      (\<forall>p\<in>set ps. (name p \<in> name ` set (init_params_meta ps REQUIRED)) = (default_value p = None))"
  proof (intro impI ballI)
    fix p assume d: "distinct (map name ps)" and p: "p \<in> set ps"
    have inj: "inj_on name (set ps)" using d by (simp add: distinct_map)
    show "(name p \<in> name ` set (init_params_meta ps REQUIRED)) = (default_value p = None)"
    proof
      assume "name p \<in> name ` set (init_params_meta ps REQUIRED)"
      then obtain q where q: "q \<in> set ps" "default_value q = None" "name q = name p"
        by (auto simp: meta_required)
      with inj p have "q = p" by (auto dest: inj_onD)
      with q show "default_value p = None" by simp
    next
      assume "default_value p = None"
      with p show "name p \<in> name ` set (init_params_meta ps REQUIRED)"
        by (auto simp: meta_required)
    qed
  qed
qed

theorem classification_partition_witness:
  "distinct (map name sig_abc) \<and>
   init_params_meta sig_abc (Kind POSITIONAL_ONLY) = [sig_abc ! 0] \<and>
   init_params_meta sig_abc (Kind POSITIONAL_OR_KEYWORD) = [sig_abc ! 1] \<and>
   init_params_meta sig_abc (Kind KEYWORD_ONLY) = [sig_abc ! 2] \<and>
   init_params_meta sig_abc REQUIRED = [sig_abc ! 0, sig_abc ! 2] \<and>
   ''c'' \<in> name ` set (init_params_meta sig_abc REQUIRED) \<and>
   ''b'' \<notin> name ` set (init_params_meta sig_abc REQUIRED)"
  using classification_partition [of sig_abc] by (simp add: sig_abc_def)

subsection \<open>Missing required arguments\<close>

text \<open>
  C1, as stated, fails. For \<^verbatim>\<open>def f(*, c, d)\<close> and an empty command line both
  required names are missing after the parse, and the failure names \<^verbatim>\<open>c\<close> alone.
\<close>

theorem aggregate_failure_counterexample:
  "super_parse_args (arguments (init no_typecast sig_cd)) \<lparr>tokens = [], named = []\<rparr> =
     Inr \<lparr>cmd_args = Map.empty, pool = []\<rparr> \<and>
   map name (init_params_meta sig_cd REQUIRED) = [''c'', ''d''] \<and>
   parse_args (init no_typecast sig_cd) \<lparr>tokens = [], named = []\<rparr> =
     Inl (ParserError ''the following arguments are required: c'')"
  by (simp add: eval_defs sig_cd_def no_typecast_def)

text \<open>
  C1, amended. When the three binding loops end without an exception, resolution
  succeeds if every required name is a key of \<^verbatim>\<open>cmd_args\<close>, and otherwise fails
  with the message that names the first missing required parameter in declaration order,
  and no other. For \<^verbatim>\<open>def f(a, /, b=1, *, c)\<close>, whatever the cast and however
  \<^verbatim>\<open>a\<close> and \<^verbatim>\<open>b\<close> were supplied, a command line the library accepts and that
  does not name \<^verbatim>\<open>c\<close> fails with the message naming exactly \<^verbatim>\<open>c\<close>.
\<close>

theorem first_missing_reported:
  "resolve m ns =
     (case bind_loops m ns of
        Inl e \<Rightarrow> Inl e
      | Inr s \<Rightarrow>
          (case filter (\<lambda>p. cmd_args s (name p) = None) (m REQUIRED) of
             [] \<Rightarrow> Inr (args s, kwargs s, pool s)
           | p # rest \<Rightarrow> Inl (ParserError (required_message (name p))))) \<and>
   (\<forall>tf cl ns'. super_parse_args (arguments (init tf sig_abc)) cl = Inr ns' \<and>
        ''c'' \<notin> fst ` set (named cl) \<longrightarrow>
      parse_args (init tf sig_abc) cl = Inl (ParserError (required_message ''c'')))"
proof (intro conjI allI impI)
  show "resolve m ns =
     (case bind_loops m ns of
        Inl e \<Rightarrow> Inl e
      | Inr s \<Rightarrow>
          (case filter (\<lambda>p. cmd_args s (name p) = None) (m REQUIRED) of
             [] \<Rightarrow> Inr (args s, kwargs s, pool s)
           | p # rest \<Rightarrow> Inl (ParserError (required_message (name p)))))"
    by (rule resolve_first_missing)
next
  fix tf :: "int param \<Rightarrow> (string \<Rightarrow> int option) option" and cl and ns' :: "int namespace"
  assume a: "super_parse_args (arguments (init tf sig_abc)) cl = Inr ns' \<and>
        ''c'' \<notin> fst ` set (named cl)"
  then have s: "super_parse_args (arguments (init tf sig_abc)) cl = Inr ns'" by simp
  from sig_abc_namespace[OF s] a obtain v where
    n: "cmd_args ns' ''a'' = Some v" "cmd_args ns' positional_or_kw = Some PPool"
       "cmd_args ns' ''c'' = None" by auto
  have "resolve (init_params_meta sig_abc) ns' = Inl (ParserError (required_message ''c''))"
    using n
    by (cases "cmd_args ns' ''b''"; cases "pool ns'")
       (simp_all add: resolve_def bind_loops_def meta_kind meta_required sig_abc_def
          positional_or_keyword_step_def positional_or_kw_def)
  with s show "parse_args (init tf sig_abc) cl = Inl (ParserError (required_message ''c''))"
    by (simp add: parse_args_def params_meta_init)
qed

theorem first_missing_reported_witness:
  "super_parse_args (arguments (init no_typecast sig_abc))
       \<lparr>tokens = [''1'', ''2''], named = []\<rparr> =
     Inr \<lparr>cmd_args = [''a'' \<mapsto> PStr ''1'', positional_or_kw \<mapsto> PPool], pool = [''2'']\<rparr> \<and>
   parse_args (init no_typecast sig_abc) \<lparr>tokens = [''1'', ''2''], named = []\<rparr> =
     Inl (ParserError ''the following arguments are required: c'')"
proof -
  have h: "super_parse_args (arguments (init no_typecast sig_abc))
       \<lparr>tokens = [''1'', ''2''], named = []\<rparr> =
     Inr \<lparr>cmd_args = [''a'' \<mapsto> PStr ''1'', positional_or_kw \<mapsto> PPool], pool = [''2'']\<rparr>"
    by (simp add: eval_defs sig_abc_def no_typecast_def)
  show ?thesis
    using h first_missing_reported [THEN conjunct2, rule_format, of no_typecast
        "\<lparr>tokens = [''1'', ''2''], named = []\<rparr>"
        "\<lparr>cmd_args = [''a'' \<mapsto> PStr ''1'', positional_or_kw \<mapsto> PPool], pool = [''2'']\<rparr>"]
    by (simp add: required_message_def)
qed

subsection \<open>Parse-time defaults\<close>




subsection \<open>Boolean positional-only parameters\<close>

text \<open>
  C3. For \<^verbatim>\<open>def f(flag: bool, /)\<close> the empty command line binds \<^verbatim>\<open>True\<close>, not
  \<^verbatim>\<open>False\<close>: the \<^verbatim>\<open>store_true\<close> action of a positional argument runs without any
  token. A token \<^verbatim>\<open>flag\<close> on the command line is left over and the parse is
  rejected.
\<close>

theorem positional_flag_always_true:
  "parse_args (init no_typecast sig_flag_only) \<lparr>tokens = [], named = []\<rparr> =
     Inr ([PBool True], Map.empty, []) \<and>
   parse_args (init no_typecast sig_flag_only) \<lparr>tokens = [''flag''], named = []\<rparr> =
     Inl ArgparseExit"
  by (simp add: eval_defs sig_flag_only_def no_typecast_def)

subsection \<open>Catch-all tokens are claimed in order\<close>

text \<open>
  C4. A positional-or-keyword parameter whose name is no key of \<^verbatim>\<open>cmd_args\<close> takes
  the first token of the catch-all list, which loses exactly that token, and is left
  unbound without an error when the list is empty. Over a run of such parameters with
  unique names the tokens go to the parameters in declaration order, one each, until
  either runs out. For \<^verbatim>\<open>x\<close>, \<^verbatim>\<open>y\<close> and the tokens \<^verbatim>\<open>5\<close>, \<^verbatim>\<open>6\<close> the result
  binds \<^verbatim>\<open>x='5'\<close> and \<^verbatim>\<open>y='6'\<close>.
\<close>

theorem catch_all_in_order:
  "(cmd_args s (name p) = None \<and> cmd_args s positional_or_kw = Some PPool \<longrightarrow>
      positional_or_keyword_step p s =
        (case pool s of
           [] \<Rightarrow> Inr s
         | t # ts \<Rightarrow>
             Inr (s\<lparr>pool := ts, kwargs := (kwargs s)(name p \<mapsto> PStr t),
                    cmd_args := (cmd_args s)(name p \<mapsto> PStr t)\<rparr>))) \<and>
   (distinct (map name ps) \<and> (\<forall>q\<in>set ps. cmd_args s (name q) = None) \<and>
    cmd_args s positional_or_kw = Some PPool \<longrightarrow>
      positional_or_keyword_loop ps s =
        Inr (s\<lparr>pool := drop (length ps) (pool s),
               kwargs := (kwargs s)(map name ps [\<mapsto>] map PStr (pool s)),
               cmd_args := (cmd_args s)(map name ps [\<mapsto>] map PStr (pool s))\<rparr>)) \<and>
   parse_args (init no_typecast sig_xy) \<lparr>tokens = [''5'', ''6''], named = []\<rparr> =
     Inr ([], [''x'' \<mapsto> PStr ''5'', ''y'' \<mapsto> PStr ''6''], [])"
proof (intro conjI impI)
  assume "cmd_args s (name p) = None \<and> cmd_args s positional_or_kw = Some PPool"
  then show "positional_or_keyword_step p s =
        (case pool s of
           [] \<Rightarrow> Inr s
         | t # ts \<Rightarrow>
             Inr (s\<lparr>pool := ts, kwargs := (kwargs s)(name p \<mapsto> PStr t),
                    cmd_args := (cmd_args s)(name p \<mapsto> PStr t)\<rparr>))"
    by (simp add: positional_or_keyword_step_def)
next
  assume "distinct (map name ps) \<and> (\<forall>q\<in>set ps. cmd_args s (name q) = None) \<and>
    cmd_args s positional_or_kw = Some PPool"
  then show "positional_or_keyword_loop ps s =
        Inr (s\<lparr>pool := drop (length ps) (pool s),
               kwargs := (kwargs s)(map name ps [\<mapsto>] map PStr (pool s)),
               cmd_args := (cmd_args s)(map name ps [\<mapsto>] map PStr (pool s))\<rparr>)"
    using pok_loop_unset by blast
next
  show "parse_args (init no_typecast sig_xy) \<lparr>tokens = [''5'', ''6''], named = []\<rparr> =
     Inr ([], [''x'' \<mapsto> PStr ''5'', ''y'' \<mapsto> PStr ''6''], [])"
    by (simp add: parse_args_def init_def Let_def meta_kind meta_required sig_xy_def
        generate_args_def generate_positional_or_keyword_args_def
        generate_arg_options_def boolean_like_def no_typecast_def
        super_parse_args_def set_default_def action_default_def
        resolve_def bind_loops_def positional_or_keyword_step_def positional_or_kw_def)
qed

theorem catch_all_in_order_witness:
  "distinct (map name sig_xy) \<and>
   positional_or_keyword_loop sig_xy
     \<lparr>cmd_args = [positional_or_kw \<mapsto> PPool], pool = [''5'', ''6'', ''7''],
      args = [], kwargs = Map.empty\<rparr> =
     Inr \<lparr>cmd_args = [positional_or_kw \<mapsto> PPool, ''x'' \<mapsto> PStr ''5'', ''y'' \<mapsto> PStr ''6''],
          pool = [''7''], args = [],
          kwargs = [''x'' \<mapsto> PStr ''5'', ''y'' \<mapsto> PStr ''6'']\<rparr>"
  using catch_all_in_order [of
      "\<lparr>cmd_args = [positional_or_kw \<mapsto> PPool], pool = [''5'', ''6'', ''7''],
        args = [], kwargs = Map.empty\<rparr>" "sig_xy ! 0" sig_xy]
  by (simp add: sig_xy_def positional_or_kw_def positional_or_keyword_step_def)

subsection \<open>Required parameters are bound on success\<close>

text \<open>
  C5. When resolution succeeds, the positional list has one slot for every
  positional-only parameter, in declaration order, holding the parsed value of that
  parameter; and every parameter without a default is bound: a positional-only one in its
  slot, a positional-or-keyword or keyword-only one as a key of the keyword mapping.
\<close>

theorem resolved_required_bound:
  assumes "resolve (init_params_meta ps) ns = Inr (a, kw, pl)"
  shows "map Some a =
           map (\<lambda>q. cmd_args ns (name q)) (filter (\<lambda>q. kind q = POSITIONAL_ONLY) ps) \<and>
         (\<forall>p\<in>set ps. default_value p = None \<longrightarrow>
            (kind p = POSITIONAL_ONLY \<longrightarrow>
               (\<exists>i<length a. filter (\<lambda>q. kind q = POSITIONAL_ONLY) ps ! i = p \<and>
                              cmd_args ns (name p) = Some (a ! i))) \<and>
            (kind p = POSITIONAL_OR_KEYWORD \<or> kind p = KEYWORD_ONLY \<longrightarrow>
               kw (name p) \<noteq> None))"
proof -
  let ?m = "init_params_meta ps"
  let ?po = "filter (\<lambda>q. kind q = POSITIONAL_ONLY) ps"
  from assms obtain s where
    b: "bind_loops ?m ns = Inr s" and
    r: "required_loop (?m REQUIRED) s = Inr ()" and
    res: "a = args s" "kw = kwargs s" "pl = pool s"
    by (auto simp: resolve_def split: sum.splits)
  have slots: "map Some a = map (\<lambda>q. cmd_args ns (name q)) ?po"
    using bind_loops_Inr(1)[OF b] res by (simp add: meta_kind)
  have len: "length a = length ?po"
    using arg_cong[OF slots, of length] by simp
  have bound: "\<forall>p\<in>set ps. default_value p = None \<longrightarrow> cmd_args s (name p) \<noteq> None"
    using required_loop_Inr[OF r] by (simp add: meta_required)
  show ?thesis
  proof (intro conjI ballI impI)
    show "map Some a = map (\<lambda>q. cmd_args ns (name q)) ?po" by (rule slots)
  next
    fix p assume p: "p \<in> set ps" and "default_value p = None" and k: "kind p = POSITIONAL_ONLY"
    from p k have "p \<in> set ?po" by simp
    then obtain i where i: "i < length ?po" "?po ! i = p"
      unfolding in_set_conv_nth by blast
    from i len have ia: "i < length a" by simp
    have "map Some a ! i = map (\<lambda>q. cmd_args ns (name q)) ?po ! i"
      using slots by simp
    with i ia have "cmd_args ns (name p) = Some (a ! i)" by simp
    with i ia show "\<exists>i<length a. ?po ! i = p \<and> cmd_args ns (name p) = Some (a ! i)"
      by blast
  next
    fix p assume p: "p \<in> set ps" and d: "default_value p = None"
      and k: "kind p = POSITIONAL_OR_KEYWORD \<or> kind p = KEYWORD_ONLY"
    from p k have "p \<in> set (?m (Kind POSITIONAL_OR_KEYWORD)) \<union> set (?m (Kind KEYWORD_ONLY))"
      by (auto simp: meta_kind)
    moreover from bound p d have "cmd_args s (name p) \<noteq> None" by blast
    ultimately show "kw (name p) \<noteq> None"
      using bind_loops_Inr(2)[OF b] res by blast
  qed
qed

theorem resolved_required_bound_witness:
  "resolve (init_params_meta sig_abc)
     \<lparr>cmd_args = [''a'' \<mapsto> PStr ''1'', positional_or_kw \<mapsto> PPool, ''c'' \<mapsto> PStr ''3''],
      pool = [''2'']\<rparr> =
     Inr ([PStr ''1''], [''b'' \<mapsto> PStr ''2'', ''c'' \<mapsto> PStr ''3''], []) \<and>
   ([''b'' \<mapsto> PStr ''2'', ''c'' \<mapsto> PStr ''3''] :: string \<rightharpoonup> int pyval) ''c'' \<noteq> None"
proof -
  have h: "resolve (init_params_meta sig_abc)
     \<lparr>cmd_args = [''a'' \<mapsto> PStr ''1'', positional_or_kw \<mapsto> PPool, ''c'' \<mapsto> PStr ''3''],
      pool = [''2'']\<rparr> =
     Inr ([PStr ''1''], [''b'' \<mapsto> PStr ''2'', ''c'' \<mapsto> PStr ''3''], [])"
    by (simp add: resolve_def bind_loops_def meta_kind meta_required sig_abc_def
        positional_or_keyword_step_def positional_or_kw_def)
  show ?thesis using h resolved_required_bound [OF h] by (simp add: sig_abc_def)
qed

subsection \<open>Boolean toggles never claim a token\<close>



subsection \<open>Positional-only signatures\<close>

text \<open>
  C8. For a signature of positional-only parameters, none boolean-like, with unique
  names, and as many tokens as parameters, each accepted by the cast of its parameter:
  the positional list is the list of the tokens in order, each cast by the type cast of
  its parameter, or left as the raw string where the parameter has no cast, and the
  keyword mapping is empty.
\<close>

theorem positional_only_in_order:
  fixes ps :: "'v param list"
  assumes po: "\<forall>p\<in>set ps. kind p = POSITIONAL_ONLY \<and> \<not> boolean_like p"
    and d: "distinct (map name ps)"
    and len: "length toks = length ps"
    and ok: "\<forall>i<length ps. \<forall>f. tf (ps ! i) = Some f \<longrightarrow> f (toks ! i) \<noteq> None"
  shows "parse_args (init tf ps) \<lparr>tokens = toks, named = []\<rparr> =
           Inr (map2 (\<lambda>p tok. case tf p of None \<Rightarrow> PStr tok | Some f \<Rightarrow> PObj (the (f tok))) ps toks,
                Map.empty, [])"
proof -
  let ?as = "map (\<lambda>p. Positional (name p) (generate_arg_options tf p)) ps"
  let ?vals = "map2 (\<lambda>p tok. the (get_value (generate_arg_options tf p) tok)) ps toks"
  let ?ns = "\<lparr>cmd_args = Map.empty(map name ps [\<mapsto>] ?vals), pool = []\<rparr> :: 'v namespace"
  have f1: "filter (\<lambda>p. kind p = POSITIONAL_ONLY) ps = ps"
    and f2: "filter (\<lambda>p. kind p = POSITIONAL_OR_KEYWORD) ps = []"
    and f3: "filter (\<lambda>p. kind p = KEYWORD_ONLY) ps = []"
    using po by (simp_all add: filter_empty_conv filter_id_conv)
  have as: "generate_args tf (init_params_meta ps) = ?as"
    unfolding generate_args_shape f1 f2 f3 by simp
  have each: "\<not> boolean_like (ps ! i) \<and>
      get_value (generate_arg_options tf (ps ! i)) (toks ! i) =
        Some (case tf (ps ! i) of None \<Rightarrow> PStr (toks ! i) | Some f \<Rightarrow> PObj (the (f (toks ! i))))"
    if i: "i < length ps" for i
  proof -
    from i po have nb: "\<not> boolean_like (ps ! i)" by simp
    show ?thesis
    proof (cases "tf (ps ! i)")
      case None
      with nb show ?thesis by (simp add: get_value_generated)
    next
      case (Some f)
      with ok i obtain v where "f (toks ! i) = Some v" by auto
      with nb Some show ?thesis by (simp add: get_value_generated)
    qed
  qed
  have all2: "list_all2 (\<lambda>p tok. \<not> boolean_like p \<and>
      get_value (generate_arg_options tf p) tok \<noteq> None) ps toks"
    unfolding list_all2_conv_all_nth using len each by simp
  have vals: "?vals = map2 (\<lambda>p tok. case tf p of None \<Rightarrow> PStr tok
                                   | Some f \<Rightarrow> PObj (the (f tok))) ps toks"
    by (rule nth_equalityI) (simp_all add: len each)
  have lv: "length ?vals = length ps" using len by simp
  have sp: "super_parse_args ?as \<lparr>tokens = toks, named = []\<rparr> = Inr ?ns"
    using po by (simp add: super_parse_args_def add_defaults_positional_only
        consume_positionals_values[OF all2])
  have present: "(Map.empty(map name ps [\<mapsto>] ?vals)) (name (ps ! i)) =
      Some (the (get_value (generate_arg_options tf (ps ! i)) (toks ! i)))"
    if "i < length ps" for i
    using map_upds_nth[of "map name ps" ?vals i Map.empty] d lv len that by simp
  have allp: "\<forall>p\<in>set ps. cmd_args ?ns (name p) \<noteq> None"
  proof
    fix p assume "p \<in> set ps"
    then obtain i where "i < length ps" "ps ! i = p" unfolding in_set_conv_nth by blast
    with present[of i] show "cmd_args ?ns (name p) \<noteq> None" by auto
  qed
  have slots: "map (\<lambda>p. the (cmd_args ?ns (name p))) ps = ?vals"
    by (rule nth_equalityI) (simp_all add: len present)
  let ?s0 = "\<lparr>cmd_args = cmd_args ?ns, pool = pool ?ns, args = [], kwargs = Map.empty\<rparr> :: 'v state"
  have "\<forall>p\<in>set ps. cmd_args ?s0 (name p) \<noteq> None" using allp by simp
  from positional_only_loop_values[OF this] slots
  have pl: "positional_only_loop ps ?s0 = Inr (?s0\<lparr>args := ?vals\<rparr>)" by simp
  have rq: "required_loop (filter (\<lambda>p. default_value p = None) ps) (?s0\<lparr>args := ?vals\<rparr>) = Inr ()"
    by (rule required_loop_all_present) (use allp in simp)
  have "resolve (init_params_meta ps) ?ns = Inr (?vals, Map.empty, [])"
    using pl rq by (simp add: resolve_def bind_loops_def meta_kind meta_required f1 f2 f3)
  with sp as have "parse_args (init tf ps) \<lparr>tokens = toks, named = []\<rparr> =
      Inr (?vals, Map.empty, [])"
    by (simp add: parse_args_def arguments_init params_meta_init)
  then show ?thesis unfolding vals .
qed

theorem positional_only_in_order_witness:
  "distinct (map name sig_mn) \<and> length [''1'', ''0''] = length sig_mn \<and>
   parse_args (init bit_typecast sig_mn) \<lparr>tokens = [''1'', ''0''], named = []\<rparr> =
     Inr ([PObj 1, PObj 0], Map.empty, [])"
proof -
  have h1: "\<forall>p\<in>set sig_mn. kind p = POSITIONAL_ONLY \<and> \<not> boolean_like p"
    by (simp add: sig_mn_def boolean_like_def)
  have h2: "distinct (map name sig_mn)" by (simp add: sig_mn_def)
  have h3: "length [''1'', ''0''] = length sig_mn" by (simp add: sig_mn_def)
  have h4: "\<forall>i<length sig_mn. \<forall>f. bit_typecast (sig_mn ! i) = Some f \<longrightarrow>
              f ([''1'', ''0''] ! i) \<noteq> None"
    by (auto simp: sig_mn_def bit_typecast_def less_Suc_eq)
  have e: "map2 (\<lambda>p tok. case bit_typecast p of None \<Rightarrow> PStr tok
                              | Some f \<Rightarrow> PObj (the (f tok))) sig_mn [''1'', ''0''] =
           [PObj 1, PObj 0]"
    by (simp add: sig_mn_def bit_typecast_def)
  show ?thesis
    using h2 h3 positional_only_in_order [OF h1 h2 h3 h4] unfolding e by blast
qed

subsection \<open>Catch-all tokens are not cast\<close>



subsection \<open>Toggles left unset are bound to None\<close>



end
